theory Spec2Isabelle
  imports Main "HOL-Library.Sublist" "HOL-Library.Word"
begin

section \<open>Python built-ins used by downsizer.py\<close>

text \<open>
  Strings are \<open>string\<close> (lists of characters), file contents are lists of bytes.
  The functions of this section model the built-in operations the program calls on
  strings and paths; each is executable.
\<close>

type_synonym byte = "8 word"

text \<open>\<^verbatim>\<open>sub in s\<close> on strings: \<open>sub\<close> occurs in \<open>s\<close> as a contiguous substring.\<close>

fun py_in :: "string \<Rightarrow> string \<Rightarrow> bool" where
  "py_in sub [] = (sub = [])"
| "py_in sub (c # cs) = (prefix sub (c # cs) \<or> py_in sub cs)"

text \<open>\<^verbatim>\<open>s.endswith(suf)\<close>.\<close>

definition endswith :: "string \<Rightarrow> string \<Rightarrow> bool" where
  "endswith s suf = (length suf \<le> length s \<and> drop (length s - length suf) s = suf)"

text \<open>
  \<^verbatim>\<open>s.split(sep)\<close> for a non-empty separator: the pieces between the non-overlapping
  occurrences of \<open>sep\<close>, found from the left. \<open>cur\<close> is the piece being read.
  (Python raises ValueError for an empty separator; the program only passes the
  literals \<^verbatim>\<open>','\<close> and \<^verbatim>\<open>'.css'\<close>. Here an empty separator splits nothing.)
\<close>

function split_from :: "string \<Rightarrow> string \<Rightarrow> string \<Rightarrow> string list" where
  "split_from sep cur [] = [cur]"
| "split_from sep cur (c # cs) =
     (if sep \<noteq> [] \<and> prefix sep (c # cs)
      then cur # split_from sep [] (drop (length sep) (c # cs))
      else split_from sep (cur @ [c]) cs)"
  by pat_completeness auto
termination
  by (relation "measure (\<lambda>(sep, cur, s). length s)") auto

definition py_split :: "string \<Rightarrow> string \<Rightarrow> string list" where
  "py_split s sep = split_from sep [] s"

text \<open>\<^verbatim>\<open>s.strip(chars)\<close>: drops the characters of \<open>chars\<close> from both ends of \<open>s\<close>.\<close>

definition py_strip :: "string \<Rightarrow> string \<Rightarrow> string" where
  "py_strip s chars =
     rev (dropWhile (\<lambda>c. c \<in> set chars) (rev (dropWhile (\<lambda>c. c \<in> set chars) s)))"

text \<open>\<^verbatim>\<open>sep.join(xs)\<close>.\<close>

fun py_join :: "string \<Rightarrow> string list \<Rightarrow> string" where
  "py_join sep [] = []"
| "py_join sep [x] = x"
| "py_join sep (x # y # ys) = x @ sep @ py_join sep (y # ys)"

text \<open>\<^verbatim>\<open>os.path.basename\<close> (POSIX): what follows the last \<^verbatim>\<open>/\<close>.\<close>

definition basename :: "string \<Rightarrow> string" where
  "basename p = rev (takeWhile (\<lambda>c. c \<noteq> CHR ''/'') (rev p))"

text \<open>\<^verbatim>\<open>os.path.join\<close> (POSIX) of a directory path and one more component.\<close>

definition path_join :: "string \<Rightarrow> string \<Rightarrow> string" where
  "path_join a b =
     (if prefix ''/'' b then b
      else if a = [] \<or> endswith a ''/'' then a @ b
      else a @ ''/'' @ b)"

section \<open>Exceptions\<close>

text \<open>
  \<open>InvalidConfigFile\<close> is the program's own exception class; the other two are the
  library exceptions that can reach the program: an error of \<^verbatim>\<open>ConfigParser.get\<close>
  and the failure of \<^verbatim>\<open>open\<close> on a missing file. Each carries its message.
\<close>

datatype exn =
    InvalidConfigFile string
  | ConfigParserError string
  | FileNotFoundError string

fun str_exn :: "exn \<Rightarrow> string" where
  "str_exn (InvalidConfigFile m) = m"
| "str_exn (ConfigParserError m) = m"
| "str_exn (FileNotFoundError m) = m"

section \<open>The configuration\<close>

text \<open>
  A loaded \<^verbatim>\<open>ConfigParser\<close>: for each section the options visible in it. An option
  either has a value, or its text cannot be interpolated, in which case
  \<^verbatim>\<open>get\<close> raises with the given message.
\<close>

datatype option_value = Value string | Uninterpolable string

type_synonym config_parser = "string \<rightharpoonup> (string \<rightharpoonup> option_value)"

definition has_option :: "config_parser \<Rightarrow> string \<Rightarrow> string \<Rightarrow> bool" where
  "has_option cfg section key =
     (case cfg section of None \<Rightarrow> False | Some opts \<Rightarrow> opts key \<noteq> None)"

definition quoted :: "string \<Rightarrow> string" where
  "quoted s = [CHR 0x27] @ s @ [CHR 0x27]"

definition config_get :: "config_parser \<Rightarrow> string \<Rightarrow> string \<Rightarrow> exn + string" where
  "config_get cfg section key =
     (case cfg section of
        None \<Rightarrow> Inl (ConfigParserError (''No section: '' @ quoted section))
      | Some opts \<Rightarrow>
          (case opts key of
             None \<Rightarrow> Inl (ConfigParserError
                       (''No option '' @ quoted key @ '' in section: '' @ quoted section))
           | Some (Uninterpolable m) \<Rightarrow> Inl (ConfigParserError m)
           | Some (Value v) \<Rightarrow> Inr v))"

definition options_required_keys :: "string list" where
  "options_required_keys =
     [''input_css_files'', ''output_directory'', ''django_directory'', ''django_apps'']"

text \<open>The \<^verbatim>\<open>for key in options_required_keys\<close> loop of \<^verbatim>\<open>check_config\<close>, with its
  \<^verbatim>\<open>return True\<close> at the end. The test is \<^verbatim>\<open>not has_option(..) or not get(..)\<close>:
  \<^verbatim>\<open>get\<close> is only called when the option exists, and an empty string is false.\<close>

fun check_keys :: "config_parser \<Rightarrow> string list \<Rightarrow> exn + bool" where
  "check_keys cfg [] = Inr True"
| "check_keys cfg (key # keys) =
     (if \<not> has_option cfg ''SETTINGS'' key
      then Inl (InvalidConfigFile (''Missing or empty key '' @ key @ '' in [OPTIONS]''))
      else (case config_get cfg ''SETTINGS'' key of
              Inl e \<Rightarrow> Inl e
            | Inr v \<Rightarrow>
                if v = []
                then Inl (InvalidConfigFile (''Missing or empty key '' @ key @ '' in [OPTIONS]''))
                else check_keys cfg keys))"

text \<open>\<^verbatim>\<open>check_config\<close>: the loop inside \<^verbatim>\<open>try\<close>; \<^verbatim>\<open>except Exception as e\<close> turns
  every exception into \<open>InvalidConfigFile\<close>.\<close>

definition check_config :: "config_parser \<Rightarrow> exn + bool" where
  "check_config config_object =
     (case check_keys config_object options_required_keys of
        Inl e \<Rightarrow> Inl (InvalidConfigFile (''Error while checking config: '' @ str_exn e))
      | Inr b \<Rightarrow> Inr b)"

text \<open>What \<^verbatim>\<open>open(filename)\<close> followed by \<^verbatim>\<open>read_file\<close> does: the file is missing,
  another exception with text \<open>e\<close> is raised, or the file parses.\<close>

datatype read_outcome = NotFound | ReadError string | Parsed config_parser

text \<open>\<^verbatim>\<open>load_and_check_config\<close>, declared to return \<^verbatim>\<open>Optional[ConfigParser]\<close>.\<close>

definition load_and_check_config ::
    "(string \<Rightarrow> read_outcome) \<Rightarrow> string \<Rightarrow> exn + config_parser option" where
  "load_and_check_config read_file filename =
     (case read_file filename of
        NotFound \<Rightarrow> Inl (InvalidConfigFile (''Config file '' @ filename @ '' not found.''))
      | ReadError e \<Rightarrow>
          Inl (InvalidConfigFile (''An error occurred while reading the config file: '' @ e))
      | Parsed config_object \<Rightarrow>
          (case check_config config_object of
             Inl e \<Rightarrow> Inl e
           | Inr ok \<Rightarrow>
               if ok then Inr (Some config_object)
               else Inl (InvalidConfigFile (''Invalid configuration in '' @ filename))))"

section \<open>The world the program runs in\<close>

text \<open>
  The program reads and writes files and prints lines. \<open>files\<close> maps the path of each
  regular file to its bytes; \<open>console\<close> is the list of the arguments of the
  \<^verbatim>\<open>print\<close> calls made so far.
\<close>

record world =
  files :: "string \<rightharpoonup> byte list"
  console :: "string list"

definition print :: "string \<Rightarrow> world \<Rightarrow> world" where
  "print line w = w\<lparr>console := console w @ [line]\<rparr>"

definition isfile :: "world \<Rightarrow> string \<Rightarrow> bool" where
  "isfile w path = (files w path \<noteq> None)"

text \<open>\<^verbatim>\<open>subprocess.CompletedProcess\<close> with \<^verbatim>\<open>text=True, capture_output=True\<close>.\<close>

record completed_process =
  returncode :: int
  stdout :: string
  stderr :: string

text \<open>A directory: its name, the names of its files, its subdirectories, in the
  order in which the operating system lists them.\<close>

datatype dir_tree = Dir (dir_name: string) (dir_files: "string list") (dir_subdirs: "dir_tree list")

text \<open>
  What the program takes from its environment:
  \<^item> \<open>platform_system\<close>: the value of \<^verbatim>\<open>platform.system()\<close>;
  \<^item> \<open>read_config\<close>: opening and parsing a configuration file;
  \<^item> \<open>listing\<close>: the directory tree found at a path, if the path is a directory;
  \<^item> \<open>shell\<close>: \<^verbatim>\<open>subprocess.run(cmd, shell=True, ...)\<close>, which gives the completed
    process and may change files;
  \<^item> \<open>gzip_write\<close>: the bytes a \<^verbatim>\<open>gzip.open(.., 'wb')\<close> file holds once the given
    chunks have been written to it and it has been closed.
\<close>

record env =
  platform_system :: string
  read_config :: "string \<Rightarrow> read_outcome"
  listing :: "string \<rightharpoonup> dir_tree"
  shell :: "string \<Rightarrow> (string \<rightharpoonup> byte list) \<Rightarrow> completed_process \<times> (string \<rightharpoonup> byte list)"
  gzip_write :: "byte list list \<Rightarrow> byte list"

section \<open>The directory scan\<close>

text \<open>\<^verbatim>\<open>os.walk(top)\<close>, top-down: the triple of a directory, then the walks of its
  subdirectories in order. A path that is not a directory yields nothing.\<close>

fun walk_tree :: "string \<Rightarrow> dir_tree \<Rightarrow> (string \<times> string list \<times> string list) list" where
  "walk_tree top_dir (Dir name fs subdirs) =
     (top_dir, map dir_name subdirs, fs)
       # concat (map (\<lambda>d. walk_tree (path_join top_dir (dir_name d)) d) subdirs)"

definition os_walk :: "env \<Rightarrow> string \<Rightarrow> (string \<times> string list \<times> string list) list" where
  "os_walk e top_dir =
     (case listing e top_dir of None \<Rightarrow> [] | Some t \<Rightarrow> walk_tree top_dir t)"

text \<open>The body of the \<^verbatim>\<open>for root, dirs, files in os.walk(..)\<close> loop of \<^verbatim>\<open>main\<close>,
  as a function of the list \<^verbatim>\<open>html_glob_patterns\<close> built so far.\<close>

fun scan_step ::
    "string list \<Rightarrow> string list \<Rightarrow> string \<times> string list \<times> string list \<Rightarrow> string list" where
  "scan_step django_apps html_glob_patterns (root, dirs, fs) =
     (if list_ex (\<lambda>app. py_in app root) django_apps \<and> \<not> py_in ''around'' root
      then (if list_ex (\<lambda>file. endswith file ''.html'') fs
            then html_glob_patterns @ [root @ ''/*.html'']
            else html_glob_patterns)
      else html_glob_patterns)"

text \<open>The loop itself.\<close>

fun scan_loop ::
    "string list \<Rightarrow> string list \<Rightarrow> (string \<times> string list \<times> string list) list \<Rightarrow> string list" where
  "scan_loop django_apps html_glob_patterns [] = html_glob_patterns"
| "scan_loop django_apps html_glob_patterns (entry # rest) =
     scan_loop django_apps (scan_step django_apps html_glob_patterns entry) rest"

text \<open>Lines 34 to 42 of \<^verbatim>\<open>main\<close>: the list starts empty.\<close>

definition collect_html_glob_patterns :: "env \<Rightarrow> string \<Rightarrow> string list \<Rightarrow> string list" where
  "collect_html_glob_patterns e django_project_directory django_apps =
     scan_loop django_apps [] (os_walk e django_project_directory)"

section \<open>Purging\<close>

text \<open>The name of the purged file: lines 72 to 78 of \<^verbatim>\<open>purge_css_file\<close>.
  \<^verbatim>\<open>split\<close> never returns an empty list, so \<^verbatim>\<open>[0]\<close> is its head.\<close>

definition output_filename :: "string \<Rightarrow> string" where
  "output_filename css_file =
     (let css_filename = basename css_file;
          css_filename_prefix = hd (py_split css_filename ''.css'')
      in css_filename_prefix @ ''-purged.css'')"

definition purgecss_command :: "string list \<Rightarrow> string \<Rightarrow> string \<Rightarrow> string" where
  "purgecss_command glob_patterns css_file output_dir =
     ''purgecss --css '' @ css_file @ '' '' @
     ''--content '' @ py_join '' '' glob_patterns @ '' '' @
     ''--output '' @ output_dir @ ''/'' @ output_filename css_file"

definition npx_command :: "env \<Rightarrow> string \<Rightarrow> string" where
  "npx_command e cmd =
     (if platform_system e = ''Windows'' then ''npx '' @ cmd
      else ''bash -c '' @ [CHR 0x27] @ ''source $HOME/.nvm/nvm.sh && npx '' @ cmd @ [CHR 0x27])"

definition purge_css_file ::
    "env \<Rightarrow> string list \<Rightarrow> string \<Rightarrow> string \<Rightarrow> world \<Rightarrow> (completed_process \<times> string) \<times> world" where
  "purge_css_file e glob_patterns css_file output_dir w =
     (let cmd = purgecss_command glob_patterns css_file output_dir;
          w1 = (if \<not> isfile w css_file
                then print (''Error: CSS File '' @ css_file @
                            '' does not exist. Please check the file paths.'') w
                else print (''Running PurgeCSS command: '' @ cmd) w);
          (result, files') = shell e (npx_command e cmd) (files w1)
      in ((result, output_filename css_file), w1\<lparr>files := files'\<rparr>))"

section \<open>Compressing\<close>

text \<open>\<^verbatim>\<open>shutil.COPY_BUFSIZE\<close>: 1 MiB on Windows, 64 KiB elsewhere.\<close>

definition COPY_BUFSIZE :: "env \<Rightarrow> nat" where
  "COPY_BUFSIZE e = (if platform_system e = ''Windows'' then 1024 * 1024 else 64 * 1024)"

text \<open>\<^verbatim>\<open>shutil.copyfileobj\<close>: \<^verbatim>\<open>while buf := fsrc.read(length): fdst.write(buf)\<close>.
  \<open>src\<close> is what is left to read, \<open>written\<close> the chunks written so far.\<close>

function copyfileobj :: "nat \<Rightarrow> byte list \<Rightarrow> byte list list \<Rightarrow> byte list list" where
  "copyfileobj n src written =
     (if take n src = [] then written
      else copyfileobj n (drop n src) (written @ [take n src]))"
  by pat_completeness auto
termination
  by (relation "measure (\<lambda>(n, src, written). length src)") auto

declare copyfileobj.simps [simp del]

text \<open>\<^verbatim>\<open>compress_purged_file\<close>. Opening a missing file for reading raises; otherwise the
  \<^verbatim>\<open>.gz\<close> file is created or replaced and the path of the purged file is returned.\<close>

definition compress_purged_file ::
    "env \<Rightarrow> string \<Rightarrow> string \<Rightarrow> world \<Rightarrow> (exn + string) \<times> world" where
  "compress_purged_file e output_dir purged_file w =
     (let filepath = output_dir @ ''/'' @ purged_file
      in case files w filepath of
           None \<Rightarrow> (Inl (FileNotFoundError filepath), w)
         | Some f_in \<Rightarrow>
             (Inr filepath,
              w\<lparr>files := (files w)(filepath @ ''.gz'' \<mapsto>
                   gzip_write e (copyfileobj (COPY_BUFSIZE e) f_in []))\<rparr>))"

section \<open>The orchestrator\<close>

text \<open>Lines 26 and 31 of \<^verbatim>\<open>main\<close>: \<^verbatim>\<open>[x.strip(' ') for x in s.split(',')]\<close>.\<close>

definition comma_list :: "string \<Rightarrow> string list" where
  "comma_list s = map (\<lambda>x. py_strip x '' '') (py_split s '','')"

text \<open>The body of the \<^verbatim>\<open>for css_file in css_files\<close> loop. An exception of the
  compressor is not caught.\<close>

definition process_css_file ::
    "env \<Rightarrow> string list \<Rightarrow> string \<Rightarrow> string \<Rightarrow> world \<Rightarrow> (exn + unit) \<times> world" where
  "process_css_file e html_glob_patterns output_dir css_file w =
     (case purge_css_file e html_glob_patterns css_file output_dir w of
        ((purge_result, purged_filename), w1) \<Rightarrow>
          if stdout purge_result = [] \<and> stderr purge_result = []
          then (let w2 = print ''PurgeCSS command completed successfully.'' w1;
                    w3 = print (''Purged CSS file saved to: '' @ purged_filename) w2
                in case compress_purged_file e output_dir purged_filename w3 of
                     (Inl ex, w4) \<Rightarrow> (Inl ex, w4)
                   | (Inr compressed_file, w4) \<Rightarrow>
                       (Inr (), print (''Compressed file saved as: '' @ compressed_file) w4))
          else (Inr (),
                print (stderr purge_result)
                  (print ''PurgeCSS errors:''
                    (print (stdout purge_result)
                      (print ''PurgeCSS output:'' w1)))))"

text \<open>The loop: an exception raised in the body ends it and the program.\<close>

fun process_css_files ::
    "env \<Rightarrow> string list \<Rightarrow> string \<Rightarrow> string list \<Rightarrow> world \<Rightarrow> (exn + unit) \<times> world" where
  "process_css_files e html_glob_patterns output_dir [] w = (Inr (), w)"
| "process_css_files e html_glob_patterns output_dir (css_file # rest) w =
     (case process_css_file e html_glob_patterns output_dir css_file w of
        (Inl ex, w') \<Rightarrow> (Inl ex, w')
      | (Inr u, w') \<Rightarrow> process_css_files e html_glob_patterns output_dir rest w')"

text \<open>\<^verbatim>\<open>main\<close>. An exception of \<^verbatim>\<open>load_and_check_config\<close> or of \<^verbatim>\<open>config.get\<close> is not
  caught. A \<^verbatim>\<open>ConfigParser\<close> object is never false (its length counts the default
  section), so \<^verbatim>\<open>not config\<close> holds for \<^verbatim>\<open>None\<close> only.\<close>

definition main :: "env \<Rightarrow> world \<Rightarrow> (exn + unit) \<times> world" where
  "main e w =
     (case load_and_check_config (read_config e) ''settings.cfg'' of
        Inl ex \<Rightarrow> (Inl ex, w)
      | Inr None \<Rightarrow> (Inr (), print ''Config file set incorrectly.'' w)
      | Inr (Some config) \<Rightarrow>
          (case config_get config ''SETTINGS'' ''django_directory'' of
             Inl ex \<Rightarrow> (Inl ex, w)
           | Inr django_project_directory \<Rightarrow>
          (case config_get config ''SETTINGS'' ''input_css_files'' of
             Inl ex \<Rightarrow> (Inl ex, w)
           | Inr css_files \<Rightarrow>
          (case config_get config ''SETTINGS'' ''output_directory'' of
             Inl ex \<Rightarrow> (Inl ex, w)
           | Inr output_dir \<Rightarrow>
          (case config_get config ''SETTINGS'' ''django_apps'' of
             Inl ex \<Rightarrow> (Inl ex, w)
           | Inr django_apps \<Rightarrow>
               process_css_files e
                 (collect_html_glob_patterns e django_project_directory (comma_list django_apps))
                 output_dir (comma_list css_files) w)))))"

section \<open>The specification's wording\<close>

text \<open>
  Three definitions that follow the words of the specification rather than the code;
  the code is compared with them below.

  A qualifying directory: its path contains one of the app-name fragments as a
  substring, does not contain \<^verbatim>\<open>around\<close>, and one of its own file names ends in
  \<^verbatim>\<open>.html\<close>.
\<close>

definition spec_qualifying ::
    "string list \<Rightarrow> string \<times> string list \<times> string list \<Rightarrow> bool" where
  "spec_qualifying django_apps entry =
     (case entry of (root, dirs, fs) \<Rightarrow>
        (\<exists>app \<in> set django_apps. sublist app root)
        \<and> \<not> sublist ''around'' root
        \<and> (\<exists>file \<in> set fs. suffix ''.html'' file))"

text \<open>Trimming leading spaces only.\<close>

definition spec_leading_spaces_removed :: "string \<Rightarrow> string" where
  "spec_leading_spaces_removed s = dropWhile (\<lambda>c. c = CHR '' '') s"

text \<open>A file name without its \<^verbatim>\<open>.css\<close> extension.\<close>

definition spec_without_css_extension :: "string \<Rightarrow> string" where
  "spec_without_css_extension name =
     (if suffix ''.css'' name then take (length name - length ''.css'') name else name)"

section \<open>Example inputs\<close>

text \<open>A configuration with the four required keys, as \<^verbatim>\<open>settings.cfg\<close> would give it.\<close>

definition demo_settings :: "string \<rightharpoonup> option_value" where
  "demo_settings = map_of
     [(''django_directory'', Value ''proj''),
      (''input_css_files'', Value ''static/b.css , static/a.css''),
      (''output_directory'', Value ''out''),
      (''django_apps'', Value ''blog, shop'')]"

definition demo_config :: config_parser where
  "demo_config = map_of [(''SETTINGS'', demo_settings)]"

text \<open>A project: \<^verbatim>\<open>myshop\<close> contains the fragment \<^verbatim>\<open>shop\<close> without being named so,
  \<^verbatim>\<open>shop_around\<close> contains \<^verbatim>\<open>around\<close>, and \<^verbatim>\<open>blog\<close> has its templates one level
  down.\<close>

definition demo_tree :: dir_tree where
  "demo_tree =
     Dir ''proj'' [''manage.py'', ''base.html'']
       [Dir ''blog'' [''views.py'']
          [Dir ''templates'' [''index.html'', ''post.html''] []],
        Dir ''myshop'' [''cart.html''] [],
        Dir ''shop_around'' [''old.html''] [],
        Dir ''static'' [''a.css''] []]"

text \<open>An environment whose purge tool complains on its error stream about
  \<^verbatim>\<open>static/b.css\<close>, and for any other stylesheet writes \<^verbatim>\<open>out/a-purged.css\<close> silently
  with exit status 1. Its gzip writer puts the two magic bytes before the data.\<close>

definition demo_env :: env where
  "demo_env =
     \<lparr>platform_system = ''Linux'',
      read_config = (\<lambda>f. if f = ''settings.cfg'' then Parsed demo_config else NotFound),
      listing = map_of [(''proj'', demo_tree)],
      shell = (\<lambda>cmd fs.
        if py_in ''static/b.css'' cmd
        then (\<lparr>returncode = 0, stdout = [], stderr = ''no such file''\<rparr>, fs)
        else (\<lparr>returncode = 1, stdout = [], stderr = []\<rparr>,
              fs(''out/a-purged.css'' \<mapsto> [0x61, 0x7B, 0x7D]))),
      gzip_write = (\<lambda>chunks. [0x1F, 0x8B] @ concat chunks)\<rparr>"

definition demo_gunzip :: "byte list \<Rightarrow> byte list option" where
  "demo_gunzip bs = (if take 2 bs = [0x1F, 0x8B] then Some (drop 2 bs) else None)"

text \<open>A world in which \<^verbatim>\<open>static/a.css\<close> exists and \<^verbatim>\<open>static/b.css\<close> does not, and one
  in which the purged file has been written.\<close>

definition demo_world :: world where
  "demo_world = \<lparr>files = map_of [(''static/a.css'', [0x61, 0x7B, 0x7D, 0x62, 0x7B, 0x7D])],
                 console = []\<rparr>"

definition demo_purged_world :: world where
  "demo_purged_world = \<lparr>files = map_of [(''out/a-purged.css'', [0x61, 0x7B, 0x7D])],
                        console = []\<rparr>"

section \<open>Validation of the configuration\<close>

lemma check_keys_not_False: "check_keys cfg keys \<noteq> Inr False"
  by (induction keys) (auto split: sum.splits)

lemma check_keys_True_iff:
  "check_keys cfg keys = Inr True \<longleftrightarrow>
     (\<forall>key \<in> set keys. has_option cfg ''SETTINGS'' key \<and>
        (\<exists>v. config_get cfg ''SETTINGS'' key = Inr v \<and> v \<noteq> []))"
  by (induction keys) (auto split: sum.splits)

lemma check_config_cases:
  "check_config cfg = Inr True \<or> (\<exists>m. check_config cfg = Inl (InvalidConfigFile m))"
  using check_keys_not_False [of cfg options_required_keys]
  by (cases "check_keys cfg options_required_keys") (auto simp: check_config_def)

lemma check_config_True_iff:
  "check_config cfg = Inr True \<longleftrightarrow>
     (\<forall>key \<in> set options_required_keys. has_option cfg ''SETTINGS'' key \<and>
        (\<exists>v. config_get cfg ''SETTINGS'' key = Inr v \<and> v \<noteq> []))"
  using check_keys_True_iff [of cfg options_required_keys]
  by (cases "check_keys cfg options_required_keys") (auto simp: check_config_def)

lemma check_config_message:
  "check_config cfg = Inl ex \<Longrightarrow>
     \<exists>m. ex = InvalidConfigFile (''Error while checking config: '' @ m)"
  by (auto simp: check_config_def split: sum.splits)

text \<open>The loader never returns \<^verbatim>\<open>None\<close>, and a configuration it returns has the
  four keys.\<close>

lemma load_never_None: "load_and_check_config rd filename \<noteq> Inr None"
  by (auto simp: load_and_check_config_def split: read_outcome.splits sum.splits)

lemma load_Some_valid:
  "load_and_check_config rd filename = Inr (Some cfg) \<Longrightarrow>
     rd filename = Parsed cfg \<and>
     (\<forall>key \<in> set options_required_keys. has_option cfg ''SETTINGS'' key \<and>
        (\<exists>v. config_get cfg ''SETTINGS'' key = Inr v \<and> v \<noteq> []))"
  using check_config_True_iff
  by (auto simp: load_and_check_config_def split: read_outcome.splits sum.splits if_splits)

lemma load_else_unreachable:
  "load_and_check_config rd filename
     \<noteq> Inl (InvalidConfigFile (''Invalid configuration in '' @ filename))"
proof (cases "rd filename")
  case (Parsed c)
  from check_config_cases [of c] show ?thesis
  proof
    assume "check_config c = Inr True"
    with Parsed show ?thesis by (simp add: load_and_check_config_def)
  next
    assume "\<exists>m. check_config c = Inl (InvalidConfigFile m)"
    then obtain m where m: "check_config c = Inl (InvalidConfigFile m)" ..
    from check_config_message [OF m] Parsed m show ?thesis
      by (auto simp: load_and_check_config_def)
  qed
qed (simp_all add: load_and_check_config_def)

text \<open>
  C10. \<^verbatim>\<open>check_config\<close> never returns \<^verbatim>\<open>False\<close>: for every loaded configuration it
  returns \<^verbatim>\<open>True\<close> or raises \<open>InvalidConfigFile\<close>; it returns \<^verbatim>\<open>True\<close> exactly when
  each of the four required keys is an option of \<^verbatim>\<open>SETTINGS\<close> with a non-empty value;
  and \<^verbatim>\<open>load_and_check_config\<close> never raises the
  \<^verbatim>\<open>Invalid configuration in {filename}\<close> error of its \<^verbatim>\<open>else\<close> branch.
\<close>

theorem check_config_never_False:
  "check_config cfg \<noteq> Inr False
   \<and> (check_config cfg = Inr True \<or> (\<exists>m. check_config cfg = Inl (InvalidConfigFile m)))
   \<and> (check_config cfg = Inr True \<longleftrightarrow>
        (\<forall>key \<in> set options_required_keys. has_option cfg ''SETTINGS'' key \<and>
           (\<exists>v. config_get cfg ''SETTINGS'' key = Inr v \<and> v \<noteq> [])))
   \<and> load_and_check_config rd filename
        \<noteq> Inl (InvalidConfigFile (''Invalid configuration in '' @ filename))"
  using check_config_cases [of cfg] check_config_True_iff [of cfg]
    load_else_unreachable [of rd filename]
  by auto

theorem check_config_never_False_witness:
  "check_config demo_config = Inr True"
proof -
  have keys: "\<forall>key \<in> set options_required_keys. has_option demo_config ''SETTINGS'' key \<and>
      (\<exists>v. config_get demo_config ''SETTINGS'' key = Inr v \<and> v \<noteq> [])"
    by (simp add: options_required_keys_def demo_config_def demo_settings_def
        has_option_def config_get_def)
  from check_config_never_False [of demo_config "\<lambda>_. NotFound" "''settings.cfg''"] keys
  show ?thesis by blast
qed

text \<open>
  C4. The loader is documented to return \<^verbatim>\<open>None\<close> when the file is not valid, and
  \<^verbatim>\<open>main\<close> tests for it. On a missing file it raises \<open>InvalidConfigFile\<close> instead, and
  \<^verbatim>\<open>main\<close> ends with that exception, having printed nothing.
\<close>

theorem load_and_check_config_missing_file:
  "load_and_check_config (\<lambda>_. NotFound) ''settings.cfg''
     = Inl (InvalidConfigFile ''Config file settings.cfg not found.'')
   \<and> main (e\<lparr>read_config := \<lambda>_. NotFound\<rparr>) w
     = (Inl (InvalidConfigFile ''Config file settings.cfg not found.''), w)"
  by (simp add: main_def load_and_check_config_def)

section \<open>Properties of the directory scan\<close>

text \<open>The substring and suffix tests of the code are the mathematical ones.\<close>

lemma py_in_sublist: "py_in sub s = sublist sub s"
  by (induction s) (auto simp: sublist_Cons_right)

lemma endswith_suffix: "endswith s suf = suffix suf s"
proof
  assume "endswith s suf"
  then have "s = take (length s - length suf) s @ suf"
    by (metis append_take_drop_id endswith_def)
  then show "suffix suf s" by (metis suffixI)
next
  assume "suffix suf s"
  then obtain p where "s = p @ suf" by (auto simp: suffix_def)
  then show "endswith s suf" by (simp add: endswith_def)
qed

lemma scan_step_qualifying:
  "scan_step apps acc entry
     = (if spec_qualifying apps entry then acc @ [fst entry @ ''/*.html''] else acc)"
  by (cases entry)
     (auto simp: spec_qualifying_def py_in_sublist endswith_suffix list_ex_iff)

text \<open>The loop appends to the list it was given, in the order of the walk.\<close>

lemma scan_loop_filter:
  "scan_loop apps acc walk
     = acc @ map (\<lambda>entry. fst entry @ ''/*.html'') (filter (spec_qualifying apps) walk)"
  by (induction walk arbitrary: acc) (simp_all add: scan_step_qualifying)

lemma demo_walk:
  "os_walk demo_env ''proj'' =
     [(''proj'', [''blog'', ''myshop'', ''shop_around'', ''static''],
         [''manage.py'', ''base.html'']),
      (''proj/blog'', [''templates''], [''views.py'']),
      (''proj/blog/templates'', [], [''index.html'', ''post.html'']),
      (''proj/myshop'', [], [''cart.html'']),
      (''proj/shop_around'', [], [''old.html'']),
      (''proj/static'', [], [''a.css''])]"
  by (simp add: os_walk_def demo_env_def demo_tree_def path_join_def endswith_def)

text \<open>
  C1. For every root directory and list of app-name fragments, the scan returns one
  string per qualifying directory of the walk, each being the directory's path followed
  by \<^verbatim>\<open>/*.html\<close>, in the order of the walk; with N qualifying directories the result
  has N elements.
\<close>

theorem scan_one_glob_per_qualifying_directory:
  "collect_html_glob_patterns e root django_apps
     = map (\<lambda>entry. fst entry @ ''/*.html'')
         (filter (spec_qualifying django_apps) (os_walk e root))
   \<and> length (collect_html_glob_patterns e root django_apps)
     = length (filter (spec_qualifying django_apps) (os_walk e root))"
  by (simp add: collect_html_glob_patterns_def scan_loop_filter)

theorem scan_one_glob_per_qualifying_directory_witness:
  "collect_html_glob_patterns demo_env ''proj'' [''blog'', ''shop'']
     = [''proj/blog/templates/*.html'', ''proj/myshop/*.html'']"
  using scan_one_glob_per_qualifying_directory [of demo_env "''proj''" "[''blog'', ''shop'']"]
  by (simp add: demo_walk spec_qualifying_def sublist_code(3) suffix_to_prefix)

text \<open>
  C2. A visited directory is included (its pattern is appended) if and only if its path
  contains one of the fragments as a substring, does not contain \<^verbatim>\<open>around\<close>, and one
  of its own files ends in \<^verbatim>\<open>.html\<close>; otherwise the list is left as it was. A pattern is
  in the result exactly when the walk visited a directory of that path which qualifies.
  A directory none of whose own files ends in \<^verbatim>\<open>.html\<close> contributes nothing, whatever
  its subdirectories hold.
\<close>

theorem scan_includes_iff:
  "(scan_step django_apps acc (root, dirs, fs) = acc @ [root @ ''/*.html''])
     = ((\<exists>app \<in> set django_apps. sublist app root)
        \<and> \<not> sublist ''around'' root
        \<and> (\<exists>file \<in> set fs. suffix ''.html'' file))
   \<and> (scan_step django_apps acc (root, dirs, fs) = acc)
     = (\<not> ((\<exists>app \<in> set django_apps. sublist app root)
           \<and> \<not> sublist ''around'' root
           \<and> (\<exists>file \<in> set fs. suffix ''.html'' file)))
   \<and> (root @ ''/*.html'' \<in> set (collect_html_glob_patterns e top_dir django_apps))
     = (\<exists>dirs fs. (root, dirs, fs) \<in> set (os_walk e top_dir)
          \<and> (\<exists>app \<in> set django_apps. sublist app root)
          \<and> \<not> sublist ''around'' root
          \<and> (\<exists>file \<in> set fs. suffix ''.html'' file))
   \<and> ((\<forall>file \<in> set fs. \<not> suffix ''.html'' file) \<longrightarrow>
        scan_loop django_apps acc (walk_tree root (Dir name fs subdirs))
          = scan_loop django_apps acc
              (concat (map (\<lambda>d. walk_tree (path_join root (dir_name d)) d) subdirs)))"
proof (intro conjI)
  show "(root @ ''/*.html'' \<in> set (collect_html_glob_patterns e top_dir django_apps))
     = (\<exists>dirs fs. (root, dirs, fs) \<in> set (os_walk e top_dir)
          \<and> (\<exists>app \<in> set django_apps. sublist app root)
          \<and> \<not> sublist ''around'' root
          \<and> (\<exists>file \<in> set fs. suffix ''.html'' file))"
    by (auto simp: collect_html_glob_patterns_def scan_loop_filter spec_qualifying_def image_iff)
qed (auto simp: scan_step_qualifying spec_qualifying_def)

theorem scan_includes_iff_witness:
  "scan_step [''blog'', ''shop''] [] (''proj/myshop'', [], [''cart.html''])
     = [''proj/myshop/*.html'']
   \<and> scan_step [''blog'', ''shop''] [] (''proj/shop_around'', [], [''old.html'']) = []
   \<and> scan_loop [''blog'', ''shop''] []
        (walk_tree ''proj/blog''
           (Dir ''blog'' [''views.py''] [Dir ''templates'' [''index.html'', ''post.html''] []]))
     = [''proj/blog/templates/*.html'']"
proof -
  have no_html: "\<forall>file \<in> set [''views.py'']. \<not> suffix ''.html'' file"
    by (simp add: suffix_to_prefix)
  have shop: "(\<exists>app \<in> set [''blog'', ''shop'']. sublist app ''proj/myshop'')
      \<and> \<not> sublist ''around'' ''proj/myshop''
      \<and> (\<exists>file \<in> set [''cart.html'']. suffix ''.html'' file)"
    by (simp add: sublist_code(3) suffix_to_prefix)
  have around: "sublist ''around'' ''proj/shop_around''"
    by (simp add: sublist_code(3))
  from scan_includes_iff [of "[''blog'', ''shop'']" "[]" "''proj/myshop''" "[]" "[''cart.html'']"]
    shop
  have 1: "scan_step [''blog'', ''shop''] [] (''proj/myshop'', [], [''cart.html''])
     = [''proj/myshop/*.html'']"
    by simp
  from scan_includes_iff [of "[''blog'', ''shop'']" "[]" "''proj/shop_around''" "[]"
      "[''old.html'']"] around
  have 2: "scan_step [''blog'', ''shop''] [] (''proj/shop_around'', [], [''old.html'']) = []"
    by blast
  from scan_includes_iff [of "[''blog'', ''shop'']" "[]" "''proj/blog''" "[''templates'']"
      "[''views.py'']" demo_env "''proj''" "''blog''"
      "[Dir ''templates'' [''index.html'', ''post.html''] []]"] no_html
  have "scan_loop [''blog'', ''shop''] []
        (walk_tree ''proj/blog''
           (Dir ''blog'' [''views.py''] [Dir ''templates'' [''index.html'', ''post.html''] []]))
     = scan_loop [''blog'', ''shop''] []
         (concat (map (\<lambda>d. walk_tree (path_join ''proj/blog'' (dir_name d)) d)
            [Dir ''templates'' [''index.html'', ''post.html''] []]))"
    by blast
  also have "\<dots> = [''proj/blog/templates/*.html'']"
    by (simp add: path_join_def endswith_def)
  finally show ?thesis using 1 2 by simp
qed

section \<open>Splitting and stripping\<close>

lemma split_from_nonempty: "split_from sep cur s \<noteq> []"
  by (induction sep cur s rule: split_from.induct) auto

lemma py_join_Cons: "ys \<noteq> [] \<Longrightarrow> py_join sep (x # ys) = x @ sep @ py_join sep ys"
  by (cases ys) simp_all

text \<open>Joining the pieces of a split with the separator gives the string back.\<close>

lemma py_join_split_from: "py_join sep (split_from sep cur s) = cur @ s"
proof (induction sep cur s rule: split_from.induct)
  case (1 sep cur)
  show ?case by simp
next
  case (2 sep cur c cs)
  show ?case
  proof (cases "sep \<noteq> [] \<and> prefix sep (c # cs)")
    case True
    then have "c # cs = sep @ drop (length sep) (c # cs)"
      by (metis append_eq_conv_conj prefix_def)
    with True 2 show ?thesis
      by (simp add: py_join_Cons split_from_nonempty del: drop_Suc_Cons)
  next
    case False
    with 2 show ?thesis by auto
  qed
qed

lemma py_join_py_split: "py_join sep (py_split s sep) = s"
  by (simp add: py_split_def py_join_split_from)

text \<open>Up to the first occurrence of the separator, the first piece is what was read.\<close>

lemma split_from_hd:
  "sep \<noteq> [] \<Longrightarrow> \<not> sublist sep (p @ butlast sep) \<Longrightarrow>
     hd (split_from sep cur (p @ sep @ r)) = cur @ p"
proof (induction p arbitrary: cur)
  case Nil
  then obtain x xs where "sep = x # xs" by (cases sep) auto
  then show ?case by simp
next
  case (Cons x p)
  have "\<not> prefix sep (x # p @ sep @ r)"
  proof
    assume a: "prefix sep (x # p @ sep @ r)"
    have "sep = butlast sep @ [last sep]" using Cons.prems(1) by simp
    then have "x # p @ sep @ r = ((x # p) @ butlast sep) @ ([last sep] @ r)"
      by (metis append_Cons append_assoc)
    then have b: "prefix ((x # p) @ butlast sep) (x # p @ sep @ r)"
      by (metis prefixI)
    have "length sep \<le> length ((x # p) @ butlast sep)" by simp
    with a b have "prefix sep ((x # p) @ butlast sep)"
      by (rule prefix_length_prefix)
    then have "sublist sep ((x # p) @ butlast sep)" by (rule prefix_imp_sublist)
    with Cons.prems(2) show False by simp
  qed
  moreover have "\<not> sublist sep (p @ butlast sep)"
    using Cons.prems(2) by (auto simp: sublist_Cons_right)
  ultimately show ?case using Cons.IH [of "cur @ [x]"] Cons.prems(1) by simp
qed

text \<open>\<^verbatim>\<open>strip\<close> with one character: what is removed are copies of it at both ends, and
  the result neither starts nor ends with it.\<close>

lemma strip_decompose: "\<exists>a b. s = replicate a c @ py_strip s [c] @ replicate b c"
proof -
  let ?P = "\<lambda>x. x \<in> set [c]"
  let ?t = "dropWhile ?P s"
  have 1: "takeWhile ?P s = replicate (length (takeWhile ?P s)) c"
    by (rule replicate_length_same [symmetric]) (auto dest: set_takeWhileD)
  have 2: "takeWhile ?P (rev ?t) = replicate (length (takeWhile ?P (rev ?t))) c"
    by (rule replicate_length_same [symmetric]) (auto dest: set_takeWhileD)
  have "rev ?t = takeWhile ?P (rev ?t) @ dropWhile ?P (rev ?t)" by simp
  then have "?t = rev (dropWhile ?P (rev ?t)) @ rev (takeWhile ?P (rev ?t))"
    by (metis rev_append rev_rev_ident)
  then have 3: "?t = py_strip s [c] @ replicate (length (takeWhile ?P (rev ?t))) c"
    using 2 by (metis py_strip_def rev_replicate)
  have "s = takeWhile ?P s @ ?t" by simp
  with 1 3 have "s = replicate (length (takeWhile ?P s)) c @ py_strip s [c]
      @ replicate (length (takeWhile ?P (rev ?t))) c"
    by metis
  then show ?thesis by blast
qed

lemma strip_no_leading: "\<not> prefix [c] (py_strip s [c])"
proof
  let ?P = "\<lambda>x. x \<in> set [c]"
  let ?t = "dropWhile ?P s"
  let ?u = "dropWhile ?P (rev ?t)"
  assume "prefix [c] (py_strip s [c])"
  then obtain r where r: "rev ?u = c # r" by (auto simp: py_strip_def prefix_def)
  then have u: "?u = rev r @ [c]" by (metis rev.simps(2) rev_rev_ident)
  have "suffix ?u (rev ?t)" by (rule suffix_dropWhile)
  then obtain p where "rev ?t = p @ rev r @ [c]" using u by (auto simp: suffix_def)
  then have "?t = c # r @ rev p"
    by (metis rev.simps(2) rev_append rev_rev_ident append_Cons)
  then have "?t \<noteq> []" and "hd ?t = c" by simp_all
  moreover have "?t \<noteq> [] \<Longrightarrow> \<not> ?P (hd ?t)" by (rule hd_dropWhile)
  ultimately show False by simp
qed

lemma strip_no_trailing: "\<not> suffix [c] (py_strip s [c])"
proof
  let ?P = "\<lambda>x. x \<in> set [c]"
  let ?t = "dropWhile ?P s"
  let ?u = "dropWhile ?P (rev ?t)"
  assume "suffix [c] (py_strip s [c])"
  then obtain r where r: "rev ?u = r @ [c]" by (auto simp: py_strip_def suffix_def)
  then have u: "?u = c # rev r"
    by (metis rev_rev_ident rev_append rev_singleton_conv append_Cons append_Nil)
  then have "?u \<noteq> []" and "hd ?u = c" by simp_all
  moreover have "?u \<noteq> [] \<Longrightarrow> \<not> ?P (hd ?u)" by (rule hd_dropWhile)
  ultimately show False by simp
qed

text \<open>
  C6, as stated: each element of the comma-split list has only its leading spaces
  removed. It fails on the value \<^verbatim>\<open>static/b.css , static/a.css\<close>: the first piece of the
  split ends in a space, and the list entry does not.
\<close>

theorem comma_list_leading_only_counterexample:
  "py_split ''static/b.css , static/a.css'' '','' ! 0 = ''static/b.css ''
   \<and> spec_leading_spaces_removed (py_split ''static/b.css , static/a.css'' '','' ! 0)
       = ''static/b.css ''
   \<and> comma_list ''static/b.css , static/a.css'' ! 0 = ''static/b.css''
   \<and> comma_list ''static/b.css , static/a.css'' ! 0
       \<noteq> spec_leading_spaces_removed (py_split ''static/b.css , static/a.css'' '','' ! 0)"
  by (simp add: comma_list_def py_split_def py_strip_def spec_leading_spaces_removed_def)

text \<open>
  C6, amended: the list has one entry per piece of the comma split, and each entry is
  the piece with the spaces at both of its ends removed: the piece is the entry between
  two runs of spaces, and the entry neither starts nor ends with a space.
\<close>

theorem comma_list_strips_both_ends:
  "length (comma_list s) = length (py_split s '','')
   \<and> (\<forall>i < length (py_split s '','').
        (\<exists>a b. py_split s '','' ! i
                 = replicate a CHR '' '' @ comma_list s ! i @ replicate b CHR '' '')
        \<and> \<not> prefix '' '' (comma_list s ! i)
        \<and> \<not> suffix '' '' (comma_list s ! i))"
  using strip_decompose [of _ "CHR '' ''"] strip_no_leading [of "CHR '' ''"]
    strip_no_trailing [of "CHR '' ''"]
  by (simp add: comma_list_def)

theorem comma_list_strips_both_ends_witness:
  "comma_list ''static/b.css , static/a.css'' = [''static/b.css'', ''static/a.css'']
   \<and> \<not> suffix '' '' (comma_list ''static/b.css , static/a.css'' ! 0)"
proof -
  have "0 < length (py_split ''static/b.css , static/a.css'' '','')"
    by (simp add: py_split_def)
  with comma_list_strips_both_ends [of "''static/b.css , static/a.css''"]
  have "\<not> suffix '' '' (comma_list ''static/b.css , static/a.css'' ! 0)"
    by blast
  then show ?thesis
    by (simp add: comma_list_def py_split_def py_strip_def)
qed

section \<open>The name of the purged file\<close>

text \<open>When \<^verbatim>\<open>.css\<close> occurs in the base name at its end and nowhere before, the name is
  the base name without the extension, followed by \<^verbatim>\<open>-purged.css\<close>.\<close>

lemma output_filename_plain:
  assumes "basename css_file = stem @ ''.css''" and "\<not> sublist ''.css'' (stem @ ''.cs'')"
  shows "output_filename css_file = stem @ ''-purged.css''"
  using split_from_hd [of "''.css''" stem "[]" "[]"] assms
  by (simp add: output_filename_def py_split_def)

text \<open>The name is the second component of the result, and the command's destination is
  the output directory, a slash and the name.\<close>

lemma purge_css_file_filename:
  "snd (fst (purge_css_file e glob_patterns css_file output_dir w)) = output_filename css_file"
  by (simp add: purge_css_file_def Let_def split_def)

lemma purgecss_command_destination:
  "suffix (''--output '' @ output_dir @ ''/'' @ output_filename css_file)
     (purgecss_command glob_patterns css_file output_dir)"
  unfolding purgecss_command_def suffix_def by (metis append_assoc)

text \<open>
  C5. The comment in \<^verbatim>\<open>purge_css_file\<close> says that the \<^verbatim>\<open>.css\<close> extension is removed, but
  \<^verbatim>\<open>split('.css')[0]\<close> keeps what precedes the first \<^verbatim>\<open>.css\<close> of the base name. For
  \<^verbatim>\<open>static/theme.css.v2.css\<close> the name is \<^verbatim>\<open>theme-purged.css\<close>, where removing the
  extension gives \<^verbatim>\<open>theme.css.v2-purged.css\<close>.
\<close>

theorem output_filename_first_css:
  "basename ''static/theme.css.v2.css'' = ''theme.css.v2.css''
   \<and> output_filename ''static/theme.css.v2.css'' = ''theme-purged.css''
   \<and> spec_without_css_extension (basename ''static/theme.css.v2.css'') @ ''-purged.css''
       = ''theme.css.v2-purged.css''"
  by (simp add: output_filename_def basename_def py_split_def spec_without_css_extension_def
      suffix_to_prefix)

section \<open>Purging a file that does not exist\<close>

text \<open>
  C9. When the CSS source path is not a file, \<^verbatim>\<open>purge_css_file\<close> prints the error line
  and goes on: the command is built and run all the same, and the function returns the
  completed process and the computed file name.
\<close>

theorem purge_css_file_missing_source:
  assumes "\<not> isfile w css_file"
  shows "purge_css_file e glob_patterns css_file output_dir w
     = ((fst (shell e (npx_command e (purgecss_command glob_patterns css_file output_dir))
                (files w)),
         output_filename css_file),
        \<lparr>files = snd (shell e (npx_command e (purgecss_command glob_patterns css_file output_dir))
                        (files w)),
         console = console w @
           [''Error: CSS File '' @ css_file @ '' does not exist. Please check the file paths.'']\<rparr>)"
  using assms by (simp add: purge_css_file_def Let_def print_def split_def)

theorem purge_css_file_missing_source_witness:
  "fst (purge_css_file demo_env [''proj/myshop/*.html''] ''static/b.css'' ''out'' demo_world)
     = (\<lparr>returncode = 0, stdout = [], stderr = ''no such file''\<rparr>, ''b-purged.css'')
   \<and> console (snd (purge_css_file demo_env [''proj/myshop/*.html''] ''static/b.css'' ''out''
                     demo_world))
     = [''Error: CSS File static/b.css does not exist. Please check the file paths.'']"
proof -
  have missing: "\<not> isfile demo_world ''static/b.css''"
    by (simp add: isfile_def demo_world_def)
  from purge_css_file_missing_source [OF missing, of demo_env "[''proj/myshop/*.html'']" "''out''"]
  show ?thesis
    by (simp add: demo_env_def demo_world_def npx_command_def purgecss_command_def
        output_filename_def basename_def py_split_def)
qed

section \<open>Properties of the compressor\<close>

text \<open>The chunks that \<^verbatim>\<open>copyfileobj\<close> writes are the source, cut in pieces.\<close>

lemma copyfileobj_concat:
  "0 < n \<Longrightarrow> concat (copyfileobj n src written) = concat written @ src"
proof (induction n src written rule: copyfileobj.induct)
  case (1 n src written)
  show ?case
  proof (cases "take n src = []")
    case True
    with 1 show ?thesis by (subst copyfileobj.simps) simp
  next
    case False
    with 1 show ?thesis by (subst copyfileobj.simps) simp
  qed
qed

lemma COPY_BUFSIZE_pos: "0 < COPY_BUFSIZE e"
  by (simp add: COPY_BUFSIZE_def)

lemma compress_console:
  "console (snd (compress_purged_file e output_dir purged_file w)) = console w"
  by (simp add: compress_purged_file_def Let_def split: option.splits)

lemma compress_missing:
  "files w (output_dir @ ''/'' @ purged_file) = None \<Longrightarrow>
     compress_purged_file e output_dir purged_file w
       = (Inl (FileNotFoundError (output_dir @ ''/'' @ purged_file)), w)"
  by (simp add: compress_purged_file_def)

text \<open>
  C7. Given an output directory and the name of a purged file that exists,
  \<^verbatim>\<open>compress_purged_file\<close> writes what the gzip writer produces from the file's bytes to
  the path of the purged file with \<^verbatim>\<open>.gz\<close> appended, changes no other file, and returns
  the path of the purged file itself, not the path of the compressed file.
\<close>

theorem compress_purged_file_returns_purged_path:
  assumes "files w (output_dir @ ''/'' @ purged_file) = Some f_in"
  shows "\<exists>chunks. concat chunks = f_in
           \<and> compress_purged_file e output_dir purged_file w
             = (Inr (output_dir @ ''/'' @ purged_file),
                w\<lparr>files := (files w)((output_dir @ ''/'' @ purged_file) @ ''.gz''
                                       \<mapsto> gzip_write e chunks)\<rparr>)"
  using assms copyfileobj_concat [OF COPY_BUFSIZE_pos, of e f_in "[]"]
  by (intro exI [of _ "copyfileobj (COPY_BUFSIZE e) f_in []"])
     (simp add: compress_purged_file_def)

theorem compress_purged_file_returns_purged_path_witness:
  "fst (compress_purged_file demo_env ''out'' ''a-purged.css'' demo_purged_world)
     = Inr ''out/a-purged.css''
   \<and> files (snd (compress_purged_file demo_env ''out'' ''a-purged.css'' demo_purged_world))
       ''out/a-purged.css.gz''
     = Some [0x1F, 0x8B, 0x61, 0x7B, 0x7D]"
proof -
  have there: "files demo_purged_world (''out'' @ ''/'' @ ''a-purged.css'')
      = Some [0x61, 0x7B, 0x7D]"
    by (simp add: demo_purged_world_def)
  from compress_purged_file_returns_purged_path [OF there, of demo_env]
  obtain chunks where "concat chunks = [0x61, 0x7B, 0x7D :: byte]"
    and "compress_purged_file demo_env ''out'' ''a-purged.css'' demo_purged_world
           = (Inr (''out'' @ ''/'' @ ''a-purged.css''),
              demo_purged_world\<lparr>files := (files demo_purged_world)
                ((''out'' @ ''/'' @ ''a-purged.css'') @ ''.gz''
                   \<mapsto> gzip_write demo_env chunks)\<rparr>)"
    by blast
  then show ?thesis by (simp add: demo_env_def)
qed

text \<open>
  C8. Round trip. The gzip format is the library's: for any decompressor that undoes
  the gzip writer, decompressing the \<^verbatim>\<open>.gz\<close> file that \<^verbatim>\<open>compress_purged_file\<close> produced
  gives the bytes of the purged file, all of them and in order; the purged file itself
  is left as it was.
\<close>

theorem compress_then_decompress:
  assumes "\<And>chunks. gunzip (gzip_write e chunks) = Some (concat chunks)"
      and "files w (output_dir @ ''/'' @ purged_file) = Some f_in"
  shows "\<exists>w' gz. compress_purged_file e output_dir purged_file w
                  = (Inr (output_dir @ ''/'' @ purged_file), w')
           \<and> files w' (output_dir @ ''/'' @ purged_file @ ''.gz'') = Some gz
           \<and> gunzip gz = Some f_in
           \<and> files w' (output_dir @ ''/'' @ purged_file) = Some f_in"
  using assms copyfileobj_concat [OF COPY_BUFSIZE_pos, of e f_in "[]"]
  by (simp add: compress_purged_file_def)

theorem compress_then_decompress_witness:
  "Option.bind
     (files (snd (compress_purged_file demo_env ''out'' ''a-purged.css'' demo_purged_world))
        ''out/a-purged.css.gz'')
     demo_gunzip
   = Some [0x61, 0x7B, 0x7D]"
proof -
  have codec: "\<And>chunks. demo_gunzip (gzip_write demo_env chunks) = Some (concat chunks)"
    by (simp add: demo_gunzip_def demo_env_def)
  have there: "files demo_purged_world (''out'' @ ''/'' @ ''a-purged.css'')
      = Some [0x61, 0x7B, 0x7D]"
    by (simp add: demo_purged_world_def)
  from compress_then_decompress [of demo_gunzip demo_env, OF codec there]
  obtain w' gz where
    "compress_purged_file demo_env ''out'' ''a-purged.css'' demo_purged_world
       = (Inr (''out'' @ ''/'' @ ''a-purged.css''), w')"
    and "files w' (''out'' @ ''/'' @ ''a-purged.css'' @ ''.gz'') = Some gz"
    and "demo_gunzip gz = Some [0x61, 0x7B, 0x7D]"
    by blast
  then show ?thesis by simp
qed

section \<open>The orchestrator's loop\<close>

text \<open>Changing the exit status that the shell reports changes nothing but the exit
  status in the result of \<^verbatim>\<open>purge_css_file\<close>.\<close>

lemma purge_env_returncode:
  "purge_css_file (e\<lparr>shell := \<lambda>cmd fs. case shell e cmd fs of
                                  (r, fs') \<Rightarrow> (r\<lparr>returncode := k cmd fs\<rparr>, fs')\<rparr>) g css out w
   = (case purge_css_file e g css out w of
        ((r, name), w1) \<Rightarrow>
          ((r\<lparr>returncode := k (npx_command e (purgecss_command g css out)) (files w)\<rparr>, name),
           w1))"
  by (simp add: purge_css_file_def Let_def split_def npx_command_def print_def)

lemma compress_env_shell:
  "compress_purged_file (e\<lparr>shell := sh\<rparr>) out name w = compress_purged_file e out name w"
  by (simp add: compress_purged_file_def COPY_BUFSIZE_def Let_def split: option.splits)

lemma process_css_file_returncode:
  "process_css_file (e\<lparr>shell := \<lambda>cmd fs. case shell e cmd fs of
                                  (r, fs') \<Rightarrow> (r\<lparr>returncode := k cmd fs\<rparr>, fs')\<rparr>) g out css w
   = process_css_file e g out css w"
proof -
  obtain r name w1 where p: "purge_css_file e g css out w = ((r, name), w1)"
    by (metis prod.exhaust)
  have p': "purge_css_file (e\<lparr>shell := \<lambda>cmd fs. case shell e cmd fs of
                                  (r, fs') \<Rightarrow> (r\<lparr>returncode := k cmd fs\<rparr>, fs')\<rparr>) g css out w
     = ((r\<lparr>returncode := k (npx_command e (purgecss_command g css out)) (files w)\<rparr>, name), w1)"
    by (simp only: purge_env_returncode p prod.case)
  show ?thesis
    unfolding process_css_file_def p p'
    by (simp add: compress_env_shell Let_def)
qed

lemma process_css_files_returncode:
  "process_css_files (e\<lparr>shell := \<lambda>cmd fs. case shell e cmd fs of
                                  (r, fs') \<Rightarrow> (r\<lparr>returncode := k cmd fs\<rparr>, fs')\<rparr>) g out css_files w
   = process_css_files e g out css_files w"
  by (induction css_files arbitrary: w)
     (simp_all add: process_css_file_returncode split: prod.splits sum.splits)

text \<open>The two branches of the loop body.\<close>

lemma process_css_file_failed:
  assumes "purge_css_file e g css out w = ((r, name), w1)"
    and "\<not> (stdout r = [] \<and> stderr r = [])"
  shows "process_css_file e g out css w
     = (Inr (), w1\<lparr>console := console w1 @
          [''PurgeCSS output:'', stdout r, ''PurgeCSS errors:'', stderr r]\<rparr>)"
  using assms by (auto simp add: process_css_file_def print_def)

lemma process_css_file_silent:
  assumes "purge_css_file e g css out w = ((r, name), w1)"
    and "stdout r = [] \<and> stderr r = []"
  shows "process_css_file e g out css w
     = (case compress_purged_file e out name
               (w1\<lparr>console := console w1 @
                  [''PurgeCSS command completed successfully.'',
                   ''Purged CSS file saved to: '' @ name]\<rparr>) of
          (Inl ex, w4) \<Rightarrow> (Inl ex, w4)
        | (Inr compressed_file, w4) \<Rightarrow>
            (Inr (), w4\<lparr>console := console w4 @
               [''Compressed file saved as: '' @ compressed_file]\<rparr>))"
  using assms
  by (auto simp add: process_css_file_def print_def Let_def split: sum.splits prod.splits)

lemma process_css_file_silent_differs:
  assumes "purge_css_file e g css out w = ((r, name), w1)"
    and "stdout r = [] \<and> stderr r = []"
  shows "process_css_file e g out css w
     \<noteq> (Inr (), w1\<lparr>console := console w1 @ [l1, l2, l3, l4]\<rparr>)"
proof
  assume eq: "process_css_file e g out css w
     = (Inr (), w1\<lparr>console := console w1 @ [l1, l2, l3, l4]\<rparr>)"
  let ?w3 = "w1\<lparr>console := console w1 @
                  [''PurgeCSS command completed successfully.'',
                   ''Purged CSS file saved to: '' @ name]\<rparr>"
  obtain res w4 where c: "compress_purged_file e out name ?w3 = (res, w4)"
    by (cases "compress_purged_file e out name ?w3")
  have "console w4 = console ?w3" using compress_console [of e out name ?w3] c by simp
  with eq c process_css_file_silent [OF assms] show False
    by (cases res) (auto dest!: arg_cong [where f = "\<lambda>x. length (console x)"])
qed

text \<open>
  C3. Let the purge of a CSS file give the completed process \<open>r\<close>, the name \<open>name\<close>
  and the world \<open>w1\<close>. The loop body reports both streams, and does nothing else, if
  and only if one of the captured streams is not empty; when both are empty its outcome
  is that of \<^verbatim>\<open>compress_purged_file\<close> on the purged file. After a report the loop goes on
  with the remaining CSS files. The exit status is never looked at: replacing it by any
  other value leaves the run of the loop unchanged.
\<close>

theorem compress_iff_both_streams_empty:
  assumes "purge_css_file e html_glob_patterns css_file output_dir w = ((r, name), w1)"
  shows "(process_css_file e html_glob_patterns output_dir css_file w
            = (Inr (), w1\<lparr>console := console w1 @
                 [''PurgeCSS output:'', stdout r, ''PurgeCSS errors:'', stderr r]\<rparr>))
           = (\<not> (stdout r = [] \<and> stderr r = []))
         \<and> (stdout r = [] \<and> stderr r = [] \<longrightarrow>
              process_css_file e html_glob_patterns output_dir css_file w
                = (case compress_purged_file e output_dir name
                          (w1\<lparr>console := console w1 @
                             [''PurgeCSS command completed successfully.'',
                              ''Purged CSS file saved to: '' @ name]\<rparr>) of
                     (Inl ex, w4) \<Rightarrow> (Inl ex, w4)
                   | (Inr compressed_file, w4) \<Rightarrow>
                       (Inr (), w4\<lparr>console := console w4 @
                          [''Compressed file saved as: '' @ compressed_file]\<rparr>)))
         \<and> (\<not> (stdout r = [] \<and> stderr r = []) \<longrightarrow>
              process_css_files e html_glob_patterns output_dir (css_file # rest) w
                = process_css_files e html_glob_patterns output_dir rest
                    (w1\<lparr>console := console w1 @
                       [''PurgeCSS output:'', stdout r, ''PurgeCSS errors:'', stderr r]\<rparr>))
         \<and> process_css_files
              (e\<lparr>shell := \<lambda>cmd fs. case shell e cmd fs of
                                     (r, fs') \<Rightarrow> (r\<lparr>returncode := k cmd fs\<rparr>, fs')\<rparr>)
              html_glob_patterns output_dir css_files w0
            = process_css_files e html_glob_patterns output_dir css_files w0"
proof (intro conjI impI)
  show "(process_css_file e html_glob_patterns output_dir css_file w
            = (Inr (), w1\<lparr>console := console w1 @
                 [''PurgeCSS output:'', stdout r, ''PurgeCSS errors:'', stderr r]\<rparr>))
           = (\<not> (stdout r = [] \<and> stderr r = []))"
  proof (cases "stdout r = [] \<and> stderr r = []")
    case True
    from process_css_file_silent_differs [OF assms True] True show ?thesis by blast
  next
    case False
    from process_css_file_failed [OF assms False] False show ?thesis by blast
  qed
next
  assume "stdout r = [] \<and> stderr r = []"
  then show "process_css_file e html_glob_patterns output_dir css_file w
                = (case compress_purged_file e output_dir name
                          (w1\<lparr>console := console w1 @
                             [''PurgeCSS command completed successfully.'',
                              ''Purged CSS file saved to: '' @ name]\<rparr>) of
                     (Inl ex, w4) \<Rightarrow> (Inl ex, w4)
                   | (Inr compressed_file, w4) \<Rightarrow>
                       (Inr (), w4\<lparr>console := console w4 @
                          [''Compressed file saved as: '' @ compressed_file]\<rparr>))"
    by (rule process_css_file_silent [OF assms])
next
  assume "\<not> (stdout r = [] \<and> stderr r = [])"
  then show "process_css_files e html_glob_patterns output_dir (css_file # rest) w
                = process_css_files e html_glob_patterns output_dir rest
                    (w1\<lparr>console := console w1 @
                       [''PurgeCSS output:'', stdout r, ''PurgeCSS errors:'', stderr r]\<rparr>)"
    by (simp add: process_css_file_failed [OF assms])
next
  show "process_css_files
              (e\<lparr>shell := \<lambda>cmd fs. case shell e cmd fs of
                                     (r, fs') \<Rightarrow> (r\<lparr>returncode := k cmd fs\<rparr>, fs')\<rparr>)
              html_glob_patterns output_dir css_files w0
            = process_css_files e html_glob_patterns output_dir css_files w0"
    by (rule process_css_files_returncode)
qed

lemma demo_purge_b:
  "purge_css_file demo_env [''proj/myshop/*.html''] ''static/b.css'' ''out'' demo_world
     = ((\<lparr>returncode = 0, stdout = [], stderr = ''no such file''\<rparr>, ''b-purged.css''),
        demo_world\<lparr>console :=
          [''Error: CSS File static/b.css does not exist. Please check the file paths.'']\<rparr>)"
  by (simp add: purge_css_file_def Let_def print_def isfile_def demo_env_def demo_world_def
      npx_command_def purgecss_command_def output_filename_def basename_def py_split_def)

lemma demo_process_a:
  "process_css_files demo_env [''proj/myshop/*.html''] ''out'' [''static/a.css'']
     (demo_world\<lparr>console := ls\<rparr>)
   = (Inr (),
      \<lparr>files = (files demo_world)
         (''out/a-purged.css'' \<mapsto> [0x61, 0x7B, 0x7D],
          ''out/a-purged.css.gz'' \<mapsto> [0x1F, 0x8B, 0x61, 0x7B, 0x7D]),
       console = ls @
         [''Running PurgeCSS command: purgecss --css static/a.css --content proj/myshop/*.html --output out/a-purged.css'',
          ''PurgeCSS command completed successfully.'',
          ''Purged CSS file saved to: a-purged.css'',
          ''Compressed file saved as: out/a-purged.css'']\<rparr>)"
  by (simp add: process_css_file_def purge_css_file_def compress_purged_file_def Let_def
      print_def isfile_def demo_env_def demo_world_def npx_command_def purgecss_command_def
      output_filename_def basename_def py_split_def COPY_BUFSIZE_def copyfileobj.simps)

theorem compress_iff_both_streams_empty_witness:
  "process_css_files demo_env [''proj/myshop/*.html''] ''out''
     [''static/b.css'', ''static/a.css''] demo_world
   = (Inr (),
      \<lparr>files = (files demo_world)
         (''out/a-purged.css'' \<mapsto> [0x61, 0x7B, 0x7D],
          ''out/a-purged.css.gz'' \<mapsto> [0x1F, 0x8B, 0x61, 0x7B, 0x7D]),
       console =
         [''Error: CSS File static/b.css does not exist. Please check the file paths.'',
          ''PurgeCSS output:'', [], ''PurgeCSS errors:'', ''no such file'',
          ''Running PurgeCSS command: purgecss --css static/a.css --content proj/myshop/*.html --output out/a-purged.css'',
          ''PurgeCSS command completed successfully.'',
          ''Purged CSS file saved to: a-purged.css'',
          ''Compressed file saved as: out/a-purged.css'']\<rparr>)"
proof -
  let ?r = "\<lparr>returncode = 0, stdout = [], stderr = ''no such file''\<rparr>"
  let ?w1 = "demo_world\<lparr>console :=
          [''Error: CSS File static/b.css does not exist. Please check the file paths.'']\<rparr>"
  have ne: "\<not> (stdout ?r = [] \<and> stderr ?r = [])" by simp
  from compress_iff_both_streams_empty [OF demo_purge_b, of "[''static/a.css'']"] ne
  have "process_css_files demo_env [''proj/myshop/*.html''] ''out''
          [''static/b.css'', ''static/a.css''] demo_world
        = process_css_files demo_env [''proj/myshop/*.html''] ''out'' [''static/a.css'']
            (?w1\<lparr>console := console ?w1 @
               [''PurgeCSS output:'', stdout ?r, ''PurgeCSS errors:'', stderr ?r]\<rparr>)"
    by blast
  also have "\<dots> = process_css_files demo_env [''proj/myshop/*.html''] ''out'' [''static/a.css'']
            (demo_world\<lparr>console :=
               [''Error: CSS File static/b.css does not exist. Please check the file paths.'',
                ''PurgeCSS output:'', [], ''PurgeCSS errors:'', ''no such file'']\<rparr>)"
    by simp
  also have "\<dots> = (Inr (),
      \<lparr>files = (files demo_world)
         (''out/a-purged.css'' \<mapsto> [0x61, 0x7B, 0x7D],
          ''out/a-purged.css.gz'' \<mapsto> [0x1F, 0x8B, 0x61, 0x7B, 0x7D]),
       console =
         [''Error: CSS File static/b.css does not exist. Please check the file paths.'',
          ''PurgeCSS output:'', [], ''PurgeCSS errors:'', ''no such file'',
          ''Running PurgeCSS command: purgecss --css static/a.css --content proj/myshop/*.html --output out/a-purged.css'',
          ''PurgeCSS command completed successfully.'',
          ''Purged CSS file saved to: a-purged.css'',
          ''Compressed file saved as: out/a-purged.css'']\<rparr>)"
    by (subst demo_process_a) simp
  finally show ?thesis .
qed

section \<open>A run of the whole program\<close>

text \<open>On the example, \<^verbatim>\<open>main\<close> reports the failed purge of \<^verbatim>\<open>static/b.css\<close>, then purges
  and compresses \<^verbatim>\<open>static/a.css\<close>, although the tool's exit status was 1.\<close>

lemma demo_load: "load_and_check_config (read_config demo_env) ''settings.cfg'' = Inr (Some demo_config)"
  by (simp add: load_and_check_config_def demo_env_def check_config_def options_required_keys_def
      demo_config_def demo_settings_def has_option_def config_get_def)

lemma demo_globs: "collect_html_glob_patterns demo_env ''proj'' [''blog'', ''shop'']
     = [''proj/blog/templates/*.html'', ''proj/myshop/*.html'']"
  by (simp add: collect_html_glob_patterns_def demo_walk endswith_def)

lemma main_demo:
  "fst (main demo_env demo_world) = Inr ()
   \<and> console (snd (main demo_env demo_world))
     = [''Error: CSS File static/b.css does not exist. Please check the file paths.'',
        ''PurgeCSS output:'', [], ''PurgeCSS errors:'', ''no such file'',
        ''Running PurgeCSS command: purgecss --css static/a.css --content proj/blog/templates/*.html proj/myshop/*.html --output out/a-purged.css'',
        ''PurgeCSS command completed successfully.'',
        ''Purged CSS file saved to: a-purged.css'',
        ''Compressed file saved as: out/a-purged.css'']
   \<and> files (snd (main demo_env demo_world)) ''out/a-purged.css.gz''
     = Some [0x1F, 0x8B, 0x61, 0x7B, 0x7D]
   \<and> files (snd (main demo_env demo_world)) ''out/b-purged.css.gz'' = None"
  unfolding main_def demo_load
  apply (simp add: config_get_def demo_config_def demo_settings_def demo_globs)
  apply (simp add: comma_list_def py_split_def py_strip_def demo_globs)
  apply (simp add: process_css_file_def purge_css_file_def compress_purged_file_def Let_def
      print_def isfile_def demo_env_def demo_world_def npx_command_def purgecss_command_def
      output_filename_def basename_def py_split_def COPY_BUFSIZE_def copyfileobj.simps)
  done

end
